theory Spec2Isabelle
  imports Complex_Main "HOL-Library.Log_Nat"
begin

section \<open>JavaScript Number values\<close>

text \<open>
  A JavaScript Number is an IEEE 754 binary64 value: a NaN, one of two infinities, a
  negative zero, or a finite value. Finite values are kept as the rational they denote
  (\<open>Fin 0\<close> is the positive zero). Every arithmetic operation computes the exact
  rational result and rounds it to the nearest binary64 value, ties to even (\<open>fl\<close>).
\<close>

datatype number = NaN | PosInf | NegInf | NegZero | Fin rat

definition pow2 :: "int \<Rightarrow> rat" where
  "pow2 k = (if 0 \<le> k then 2 ^ nat k else 1 / 2 ^ nat (- k))"

text \<open>\<open>ilog2 q\<close> is the binary exponent of a positive rational: \<open>2^e \<le> q < 2^(e+1)\<close>.\<close>

definition ilog2 :: "rat \<Rightarrow> int" where
  "ilog2 q =
     (if 1 \<le> q then bitlen \<lfloor>q\<rfloor> - 1
      else (let f = bitlen \<lfloor>1 / q\<rfloor> - 1
            in if 1 / q = 2 ^ nat f then - f else - f - 1))"

definition round_half_even :: "rat \<Rightarrow> int" where
  "round_half_even x =
     (let n = \<lfloor>x\<rfloor>; r = x - of_int n
      in if r < 1 / 2 then n
         else if 1 / 2 < r then n + 1
         else if even n then n else n + 1)"

text \<open>
  Rounding to binary64: 53 significant bits for normal values, multiples of \<open>2^-1074\<close>
  below \<open>2^-1022\<close>, overflow to an infinity from \<open>2^1024 - 2^970\<close> on, and a result that
  rounds to zero keeps the sign of the exact value.
\<close>

definition fl :: "rat \<Rightarrow> number" where
  "fl q =
     (if q = 0 then Fin 0
      else let a = \<bar>q\<bar>;
               k = max (ilog2 a - 52) (- 1074);
               v = of_int (round_half_even (a / pow2 k)) * pow2 k
           in if 2 ^ 1024 \<le> v then (if q < 0 then NegInf else PosInf)
              else if v = 0 then (if q < 0 then NegZero else Fin 0)
              else Fin (if q < 0 then - v else v))"

fun is_nan :: "number \<Rightarrow> bool" where
  "is_nan NaN = True"
| "is_nan _ = False"

fun is_inf :: "number \<Rightarrow> bool" where
  "is_inf PosInf = True"
| "is_inf NegInf = True"
| "is_inf _ = False"

fun is_finite :: "number \<Rightarrow> bool" where
  "is_finite (Fin q) = True"
| "is_finite NegZero = True"
| "is_finite _ = False"

text \<open>The sign bit, and the rational value of a finite number (both zeros are 0).\<close>

fun sign_bit :: "number \<Rightarrow> bool" where
  "sign_bit NegInf = True"
| "sign_bit NegZero = True"
| "sign_bit (Fin q) = (q < 0)"
| "sign_bit _ = False"

fun val :: "number \<Rightarrow> rat" where
  "val (Fin q) = q"
| "val _ = 0"

fun is_zero :: "number \<Rightarrow> bool" where
  "is_zero NegZero = True"
| "is_zero (Fin q) = (q = 0)"
| "is_zero _ = False"

definition signed_inf :: "bool \<Rightarrow> number" where
  "signed_inf s = (if s then NegInf else PosInf)"

definition signed_zero :: "bool \<Rightarrow> number" where
  "signed_zero s = (if s then NegZero else Fin 0)"

fun js_neg :: "number \<Rightarrow> number" where
  "js_neg NaN = NaN"
| "js_neg PosInf = NegInf"
| "js_neg NegInf = PosInf"
| "js_neg NegZero = Fin 0"
| "js_neg (Fin q) = (if q = 0 then NegZero else Fin (- q))"

definition js_mul :: "number \<Rightarrow> number \<Rightarrow> number" where
  "js_mul x y =
     (if is_nan x \<or> is_nan y then NaN
      else if is_inf x \<or> is_inf y then
        (if is_zero x \<or> is_zero y then NaN else signed_inf (sign_bit x \<noteq> sign_bit y))
      else if val x * val y = 0 then signed_zero (sign_bit x \<noteq> sign_bit y)
      else fl (val x * val y))"

definition js_div :: "number \<Rightarrow> number \<Rightarrow> number" where
  "js_div x y =
     (if is_nan x \<or> is_nan y then NaN
      else if is_inf x then
        (if is_inf y then NaN else signed_inf (sign_bit x \<noteq> sign_bit y))
      else if is_inf y then signed_zero (sign_bit x \<noteq> sign_bit y)
      else if is_zero y then
        (if is_zero x then NaN else signed_inf (sign_bit x \<noteq> sign_bit y))
      else if is_zero x then signed_zero (sign_bit x \<noteq> sign_bit y)
      else fl (val x / val y))"

definition js_add :: "number \<Rightarrow> number \<Rightarrow> number" where
  "js_add x y =
     (if is_nan x \<or> is_nan y then NaN
      else if is_inf x then (if is_inf y \<and> x \<noteq> y then NaN else x)
      else if is_inf y then y
      else if is_zero x \<and> is_zero y then signed_zero (sign_bit x \<and> sign_bit y)
      else fl (val x + val y))"

definition js_sub :: "number \<Rightarrow> number \<Rightarrow> number" where
  "js_sub x y = js_add x (js_neg y)"

text \<open>
  The relational operators: every comparison with a NaN is false, the two zeros are
  equal, and the infinities lie beyond every finite value.
\<close>

fun rank :: "number \<Rightarrow> int" where
  "rank NegInf = - 1"
| "rank PosInf = 1"
| "rank _ = 0"

definition js_lt :: "number \<Rightarrow> number \<Rightarrow> bool" where
  "js_lt x y =
     (\<not> is_nan x \<and> \<not> is_nan y \<and> (rank x < rank y \<or> (rank x = rank y \<and> val x < val y)))"

definition js_gt :: "number \<Rightarrow> number \<Rightarrow> bool" where
  "js_gt x y = js_lt y x"

definition js_le :: "number \<Rightarrow> number \<Rightarrow> bool" where
  "js_le x y = (\<not> is_nan x \<and> \<not> is_nan y \<and> \<not> js_lt y x)"

definition js_ge :: "number \<Rightarrow> number \<Rightarrow> bool" where
  "js_ge x y = (\<not> is_nan x \<and> \<not> is_nan y \<and> \<not> js_lt x y)"

definition js_eq :: "number \<Rightarrow> number \<Rightarrow> bool" where
  "js_eq x y = (\<not> is_nan x \<and> \<not> is_nan y \<and> rank x = rank y \<and> val x = val y)"

text \<open>\<open>Math.floor\<close> and \<open>Math.round\<close> (ties towards \<open>+\<infinity>\<close>; a result in \<open>[-0.5, 0)\<close> is \<open>-0\<close>).\<close>

fun Math_floor :: "number \<Rightarrow> number" where
  "Math_floor (Fin q) = Fin (of_int \<lfloor>q\<rfloor>)"
| "Math_floor x = x"

fun Math_round :: "number \<Rightarrow> number" where
  "Math_round (Fin q) = (if q < 0 \<and> - (1 / 2) \<le> q then NegZero else Fin (of_int \<lfloor>q + 1 / 2\<rfloor>))"
| "Math_round x = x"

section \<open>Dates\<close>

text \<open>
  A \<open>Date\<close> object holds a time value: an integral number of milliseconds since the epoch
  of magnitude at most \<open>8.64e15\<close>, or NaN (an invalid date). Relational and arithmetic
  operators see a date through \<open>valueOf\<close>.
\<close>

datatype Date = InvalidDate | TimeValue int

fun valueOf :: "Date \<Rightarrow> number" where
  "valueOf InvalidDate = NaN"
| "valueOf (TimeValue t) = (if \<bar>t\<bar> \<le> 8640000000000000 then Fin (of_int t) else NaN)"

section \<open>scripts/calculations.js\<close>

record CalculationResult =
  principal :: number
  startDate :: Date
  endDate :: Date
  days :: number
  interestRate :: number
  interest :: number
  total :: number
  method' :: string

record CompoundResult = CalculationResult +
  years :: number

text \<open>A parameter with a default value: an omitted argument takes the default.\<close>

definition with_default :: "number \<Rightarrow> number option \<Rightarrow> number" where
  "with_default d a = (case a of None \<Rightarrow> d | Some r \<Rightarrow> r)"

definition msPerDay :: number where
  "msPerDay = js_mul (js_mul (js_mul (Fin 24) (Fin 60)) (Fin 60)) (Fin 1000)"

definition calculateDefaultInterest ::
  "number \<Rightarrow> Date \<Rightarrow> Date \<Rightarrow> number option \<Rightarrow> string + CalculationResult" where
  "calculateDefaultInterest principal0 startDate0 endDate0 rate =
     (let interestRate0 = with_default (Fin 5) rate in
      if js_le principal0 (Fin 0) then Inl ''Principal must be positive''
      else if js_ge (valueOf startDate0) (valueOf endDate0)
        then Inl ''End date must be after start date''
      else
        let totalDays = Math_floor (js_div (js_sub (valueOf endDate0) (valueOf startDate0)) msPerDay);
            dailyRate = js_div (js_div interestRate0 (Fin 100)) (Fin 360);
            interest0 = js_mul (js_mul principal0 dailyRate) totalDays;
            roundedInterest = js_div (Math_round (js_mul interest0 (Fin 100))) (Fin 100);
            total0 = js_div (Math_round (js_mul (js_add principal0 roundedInterest) (Fin 100))) (Fin 100)
        in Inr \<lparr> principal = principal0, startDate = startDate0, endDate = endDate0,
                 days = totalDays, interestRate = interestRate0, interest = roundedInterest,
                 total = total0, method' = ''360-day year'' \<rparr>)"

text \<open>
  \<open>Math.pow\<close> is implementation-approximated in ECMAScript, so the model takes it as a
  parameter \<open>pow\<close>.
\<close>

definition calculateCompoundInterest ::
  "(number \<Rightarrow> number \<Rightarrow> number) \<Rightarrow> number \<Rightarrow> Date \<Rightarrow> Date \<Rightarrow> number option
     \<Rightarrow> string + CompoundResult" where
  "calculateCompoundInterest pow principal0 startDate0 endDate0 rate =
     (let interestRate0 = with_default (Fin 5) rate in
      if js_le principal0 (Fin 0) then Inl ''Principal must be positive''
      else if js_ge (valueOf startDate0) (valueOf endDate0)
        then Inl ''End date must be after start date''
      else
        let totalDays = Math_floor (js_div (js_sub (valueOf endDate0) (valueOf startDate0)) msPerDay);
            years0 = js_div totalDays (Fin 365);
            total0 = js_mul principal0 (pow (js_add (Fin 1) (js_div interestRate0 (Fin 100))) years0);
            interest0 = js_sub total0 principal0
        in Inr \<lparr> principal = principal0, startDate = startDate0, endDate = endDate0,
                 days = totalDays, interestRate = interestRate0,
                 interest = js_div (Math_round (js_mul interest0 (Fin 100))) (Fin 100),
                 total = js_div (Math_round (js_mul total0 (Fin 100))) (Fin 100),
                 method' = ''compound (annual)'',
                 years = js_div (Math_round (js_mul years0 (Fin 100))) (Fin 100) \<rparr>)"


text \<open>
  A JavaScript string is a sequence of UTF-16 code units; \<open>str\<close> turns an ASCII literal
  into one. A value is a string, a number or something else.
\<close>

type_synonym jsstring = "nat list"

definition str :: "string \<Rightarrow> jsstring" where
  "str cs = map of_char cs"

datatype jsvalue = JUndefined | JNull | JBoolean bool | JNumber number | JString jsstring | JObject nat

text \<open>The white space and line terminators of ECMAScript: what \<open>\\s\<close> matches and \<open>trim\<close> strips.\<close>

definition is_js_whitespace :: "nat \<Rightarrow> bool" where
  "is_js_whitespace c =
     (c \<in> set [9, 10, 11, 12, 13, 32, 160, 5760, 8232, 8233, 8239, 8287, 12288, 65279]
      \<or> (8192 \<le> c \<and> c \<le> 8202))"

definition is_digit :: "nat \<Rightarrow> bool" where
  "is_digit c = (48 \<le> c \<and> c \<le> 57)"

definition digits_value :: "nat list \<Rightarrow> nat" where
  "digits_value ds = foldl (\<lambda>a d. 10 * a + (d - 48)) 0 ds"

definition pow10 :: "int \<Rightarrow> rat" where
  "pow10 k = (if 0 \<le> k then 10 ^ nat k else 1 / 10 ^ nat (- k))"

text \<open>
  \<open>parseFloat\<close>: after leading white space, the longest prefix that is a
  \<open>StrDecimalLiteral\<close> (sign, \<open>Infinity\<close> or digits with an optional fraction and an optional
  exponent part) is read, and its mathematical value is rounded to a Number; without such a
  prefix the result is NaN. An exponent indicator without digits is not part of the prefix.
\<close>

definition signed_digits :: "nat list \<Rightarrow> int" where
  "signed_digits r =
     (case r of
        [] \<Rightarrow> 0
      | s # r' \<Rightarrow>
          if s = 45 then (if takeWhile is_digit r' = [] then 0 else - int (digits_value (takeWhile is_digit r')))
          else if s = 43 then (if takeWhile is_digit r' = [] then 0 else int (digits_value (takeWhile is_digit r')))
          else int (digits_value (takeWhile is_digit r)))"

definition exponent_part :: "nat list \<Rightarrow> int" where
  "exponent_part rest =
     (case rest of
        [] \<Rightarrow> 0
      | c # r \<Rightarrow> if c = 101 \<or> c = 69 then signed_digits r else 0)"

datatype literal = NoLiteral | InfinityLiteral | DecimalLiteral rat

definition unsigned_literal :: "nat list \<Rightarrow> literal" where
  "unsigned_literal s =
     (if take 8 s = str ''Infinity'' then InfinityLiteral
      else
        let ds1 = takeWhile is_digit s; rest1 = dropWhile is_digit s
        in case rest1 of
             [] \<Rightarrow> if ds1 = [] then NoLiteral else DecimalLiteral (of_nat (digits_value ds1))
           | c # r1 \<Rightarrow>
               if c = 46 then
                 (let ds2 = takeWhile is_digit r1; rest2 = dropWhile is_digit r1
                  in if ds1 = [] \<and> ds2 = [] then NoLiteral
                     else DecimalLiteral (of_nat (digits_value (ds1 @ ds2))
                            * pow10 (exponent_part rest2 - int (length ds2))))
               else if ds1 = [] then NoLiteral
               else DecimalLiteral (of_nat (digits_value ds1) * pow10 (exponent_part rest1)))"

definition parseFloat :: "jsstring \<Rightarrow> number" where
  "parseFloat s =
     (let t = dropWhile is_js_whitespace s;
          neg = (case t of [] \<Rightarrow> False | c # r \<Rightarrow> c = 45);
          u = (case t of [] \<Rightarrow> [] | c # r \<Rightarrow> if c = 45 \<or> c = 43 then r else t)
      in case unsigned_literal u of
           NoLiteral \<Rightarrow> NaN
         | InfinityLiteral \<Rightarrow> signed_inf neg
         | DecimalLiteral mv \<Rightarrow> if mv = 0 then signed_zero neg else fl (if neg then - mv else mv))"

text \<open>
  \<open>parseSwissNumber\<close>: the character class of the source holds the apostrophe, U+2019,
  U+2018, U+02BC and white space; \<open>replace('','', ''.'')\<close> replaces the first comma only.
\<close>

definition is_separator :: "nat \<Rightarrow> bool" where
  "is_separator c = (c = 39 \<or> c = 8217 \<or> c = 8216 \<or> c = 700 \<or> is_js_whitespace c)"

fun replace_first_char :: "nat \<Rightarrow> nat \<Rightarrow> jsstring \<Rightarrow> jsstring" where
  "replace_first_char a b [] = []"
| "replace_first_char a b (c # cs) = (if c = a then b # cs else c # replace_first_char a b cs)"

definition parseSwissNumber :: "jsvalue \<Rightarrow> jsvalue" where
  "parseSwissNumber v =
     (case v of
        JString s \<Rightarrow> JNumber (parseFloat (replace_first_char 44 46 (filter (\<lambda>c. \<not> is_separator c) s)))
      | _ \<Rightarrow> v)"


text \<open>
  The regional convention of the spec: an optional sign, digits grouped by apostrophe-like
  separators, and an optional decimal part after a comma (or a dot).
\<close>

definition regional_number :: "jsstring \<Rightarrow> bool" where
  "regional_number s =
     (let t = filter (\<lambda>c. \<not> is_separator c) s;
          u = (case t of [] \<Rightarrow> [] | c # r \<Rightarrow> if c = 45 \<or> c = 43 then r else t)
      in takeWhile is_digit u \<noteq> [] \<and>
         (case dropWhile is_digit u of
            [] \<Rightarrow> True
          | c # r \<Rightarrow> (c = 44 \<or> c = 46) \<and> list_all is_digit r))"

text \<open>A string starts a numeric literal: a digit, a dot and a digit, or \<open>Infinity\<close>, after an optional sign.\<close>

definition numeric_start :: "jsstring \<Rightarrow> bool" where
  "numeric_start t =
     (let u = (case t of [] \<Rightarrow> [] | c # r \<Rightarrow> if c = 45 \<or> c = 43 then r else t)
      in take 8 u = str ''Infinity'' \<or>
         (case u of
            [] \<Rightarrow> False
          | c # r \<Rightarrow> is_digit c \<or> (c = 46 \<and> (case r of [] \<Rightarrow> False | d # r' \<Rightarrow> is_digit d))))"

definition cleaned :: "jsstring \<Rightarrow> jsstring" where
  "cleaned s = replace_first_char 44 46 (filter (\<lambda>c. \<not> is_separator c) s)"

text \<open>
  \<open>round2 x\<close> is \<open>round(x, 2)\<close>: scale by 100, round to the nearest integer, scale back.
  \<open>elapsed_days\<close> is the floor of the elapsed time divided by the milliseconds of a day.
\<close>

definition round2 :: "number \<Rightarrow> number" where
  "round2 x = js_div (Math_round (js_mul x (Fin 100))) (Fin 100)"

definition elapsed_days :: "Date \<Rightarrow> Date \<Rightarrow> number" where
  "elapsed_days s e = Math_floor (js_div (js_sub (valueOf e) (valueOf s)) (Fin 86400000))"

text \<open>The value the interest formula produces before rounding.\<close>

definition interest_formula :: "number \<Rightarrow> number \<Rightarrow> number \<Rightarrow> number" where
  "interest_formula p r d = js_mul (js_mul p (js_div (js_div r (Fin 100)) (Fin 360))) d"

text \<open>
  Rounding to 2 decimal places with exact halves rounded away from zero, as a function of
  the exact value: the nearest Number to \<open>sgn x \<sqdot> \<lfloor>100\<bar>x\<bar> + 1/2\<rfloor> / 100\<close>.
\<close>

definition round2_half_away :: "number \<Rightarrow> number" where
  "round2_half_away x =
     (case x of Fin q \<Rightarrow> fl (sgn q * of_int \<lfloor>\<bar>q\<bar> * 100 + 1 / 2\<rfloor> / 100) | _ \<Rightarrow> x)"

text \<open>A finite \<open>Fin q\<close> is a Number only if \<open>q\<close> is a binary64 value.\<close>

definition is_double :: "number \<Rightarrow> bool" where
  "is_double x = (case x of Fin q \<Rightarrow> fl q = Fin q | _ \<Rightarrow> True)"

text \<open>
  The compound total \<open>principal \<times> (1 + rate/100)^years\<close> with \<open>years = days / 365\<close>.
\<close>

definition compound_total :: "(number \<Rightarrow> number \<Rightarrow> number) \<Rightarrow> number \<Rightarrow> number \<Rightarrow> number \<Rightarrow> number" where
  "compound_total pow p r d = js_mul p (pow (js_add (Fin 1) (js_div r (Fin 100))) (js_div d (Fin 365)))"


section \<open>Properties of binary64 rounding\<close>

lemma pow2_powi: "pow2 k = 2 powi k"
  by (simp add: pow2_def power_int_def inverse_eq_divide power_one_over divide_simps)

lemma pow2_pos: "0 < pow2 k"
  by (simp add: pow2_powi)

lemma pow2_add: "pow2 (a + b) = pow2 a * pow2 b"
  by (simp add: pow2_powi power_int_add)

lemma pow2_nat: "pow2 (int n) = 2 ^ n"
  by (simp add: pow2_def)

lemma pow2_neg: "pow2 (- k) = 1 / pow2 k"
  by (simp add: pow2_powi power_int_minus divide_simps)

lemma pow2_mono: "a \<le> b \<Longrightarrow> pow2 a \<le> pow2 b"
  by (simp add: pow2_powi power_int_increasing)

lemma pow2_diff: "pow2 (a - b) = pow2 a / pow2 b"
  using pow2_add [of a "- b"] by (simp add: pow2_neg)

lemma bitlen_floor_bounds:
  assumes "1 \<le> (r::rat)"
  shows "pow2 (bitlen \<lfloor>r\<rfloor> - 1) \<le> r \<and> r < pow2 (bitlen \<lfloor>r\<rfloor>) \<and> 1 \<le> bitlen \<lfloor>r\<rfloor>"
proof -
  define n where "n = \<lfloor>r\<rfloor>"
  have n1: "1 \<le> n" using assms by (simp add: n_def)
  then have bl: "2 ^ nat (bitlen n - 1) \<le> n \<and> n < 2 ^ nat (bitlen n)"
    using bitlen_bounds [of n] by simp
  have b1: "1 \<le> bitlen n" using n1
    by (smt (verit, ccfv_SIG) bitlen_eq_zero_iff bitlen_nonneg)
  have "(of_int (2 ^ nat (bitlen n - 1)) :: rat) \<le> of_int n"
    using bl by (simp only: of_int_le_iff)
  also have "\<dots> \<le> r" by (simp add: n_def)
  finally have lo: "pow2 (bitlen n - 1) \<le> r"
    using b1 by (simp add: pow2_def)
  have "n + 1 \<le> 2 ^ nat (bitlen n)" using bl by simp
  then have "(of_int (n + 1) :: rat) \<le> of_int (2 ^ nat (bitlen n))"
    by (simp only: of_int_le_iff)
  moreover have "r < of_int (n + 1)" using floor_correct [of r] by (simp add: n_def)
  ultimately have hi: "r < pow2 (bitlen n)"
    using b1 by (simp add: pow2_def)
  show ?thesis using lo hi b1 by (simp add: n_def)
qed

lemma ilog2_bounds:
  assumes "0 < q"
  shows "pow2 (ilog2 q) \<le> q \<and> q < pow2 (ilog2 q + 1)"
proof (cases "1 \<le> q")
  case True
  then show ?thesis
    using bitlen_floor_bounds [of q] by (simp add: ilog2_def)
next
  case False
  define r where "r = 1 / q"
  have r1: "1 \<le> r" using assms False by (simp add: r_def)
  have rpos: "0 < r" using r1 by simp
  have q_eq: "q = 1 / r" by (simp add: r_def)
  define f where "f = bitlen \<lfloor>r\<rfloor> - 1"
  have f0: "0 \<le> f" and lo: "pow2 f \<le> r" and hi: "r < pow2 (f + 1)"
    using bitlen_floor_bounds [OF r1] by (simp_all add: f_def)
  have pf: "pow2 f = 2 ^ nat f" using f0 by (simp add: pow2_def)
  show ?thesis
  proof (cases "r = 2 ^ nat f")
    case True
    then have il: "ilog2 q = - f"
      using False by (simp add: ilog2_def Let_def r_def f_def)
    have "pow2 (- f) = q" using True pf by (simp add: pow2_neg q_eq)
    moreover have "pow2 (- f + 1) = pow2 (- f) * pow2 1"
      by (rule pow2_add)
    moreover have "pow2 1 = 2" by (simp add: pow2_def)
    ultimately show ?thesis using il assms by simp
  next
    case neq: False
    then have il: "ilog2 q = - f - 1"
      using False by (simp add: ilog2_def Let_def r_def f_def)
    have lt: "pow2 f < r" using lo neq pf by simp
    have a: "pow2 (- f - 1) \<le> q"
    proof -
      have "pow2 (- f - 1) = 1 / pow2 (f + 1)"
        using pow2_neg [of "f + 1"] by simp
      also have "\<dots> \<le> 1 / r"
        using hi rpos by (simp add: frac_le)
      finally show ?thesis by (simp add: q_eq)
    qed
    have b: "q < pow2 (- f)"
    proof -
      have "1 / r < 1 / pow2 f"
        using lt pow2_pos [of f] by (simp add: frac_less2)
      then show ?thesis by (simp add: q_eq pow2_neg)
    qed
    show ?thesis using il a b by simp
  qed
qed

lemma round_half_even_of_int: "round_half_even (of_int n) = n"
  by (simp add: round_half_even_def)

lemma round_half_even_bounds:
  "x - 1 / 2 \<le> of_int (round_half_even x) \<and> of_int (round_half_even x) \<le> x + 1 / 2"
proof -
  have "of_int \<lfloor>x\<rfloor> \<le> x" "x < of_int \<lfloor>x\<rfloor> + 1"
    using floor_correct [of x] by simp_all
  then show ?thesis
    unfolding round_half_even_def Let_def by (simp; linarith)
qed

lemma round_half_even_ge: "of_int m \<le> x \<Longrightarrow> m \<le> round_half_even x"
proof -
  assume a: "of_int m \<le> x"
  then have "m \<le> \<lfloor>x\<rfloor>" by (simp add: le_floor_iff)
  then show ?thesis by (auto simp add: round_half_even_def Let_def)
qed

lemma round_half_even_le: "x \<le> of_int m \<Longrightarrow> round_half_even x \<le> m"
proof -
  assume a: "x \<le> of_int m"
  show ?thesis
  proof (cases "x = of_int m")
    case True
    then show ?thesis by (simp add: round_half_even_of_int)
  next
    case False
    then have "x < of_int m" using a by simp
    then have "\<lfloor>x\<rfloor> < m" by (simp add: floor_less_iff)
    then show ?thesis by (auto simp add: round_half_even_def Let_def)
  qed
qed

text \<open>Values with at most 53 significant bits in range are left unchanged by rounding.\<close>

lemma fl_exact:
  assumes m: "\<bar>m\<bar> < 2 ^ 53" and k: "- 1074 \<le> k"
    and q: "q = of_int m * pow2 k" and r: "\<bar>q\<bar> < 2 ^ 1024"
  shows "fl q = Fin q"
proof (cases "q = 0")
  case True
  then show ?thesis by (simp add: fl_def)
next
  case False
  define a where "a = \<bar>q\<bar>"
  have apos: "0 < a" using False by (simp add: a_def)
  have a_eq: "a = of_int \<bar>m\<bar> * pow2 k"
    using pow2_pos [of k] by (simp add: a_def q abs_mult)
  define e where "e = ilog2 a"
  have eb: "pow2 e \<le> a" using ilog2_bounds [OF apos] by (simp add: e_def)
  have "a < 2 ^ 53 * pow2 k"
  proof -
    have "(of_int \<bar>m\<bar> :: rat) < of_int (2 ^ 53)" using m by (simp only: of_int_less_iff)
    then show ?thesis using pow2_pos [of k] by (simp add: a_eq)
  qed
  also have "\<dots> = pow2 (53 + k)"
  proof -
    have "pow2 53 = 2 ^ 53" by (simp add: pow2_def)
    then show ?thesis by (simp add: pow2_add)
  qed
  finally have "pow2 e < pow2 (53 + k)" using eb by simp
  then have ek: "e - 52 \<le> k"
    using pow2_mono [of "53 + k" e] by (cases "53 + k \<le> e") auto
  define k' where "k' = max (e - 52) (- 1074)"
  have k'k: "k' \<le> k" using ek k by (simp add: k'_def)
  define d where "d = nat (k - k')"
  have kd: "k = k' + int d" using k'k by (simp add: d_def)
  have "a / pow2 k' = of_int \<bar>m\<bar> * 2 ^ d"
    using pow2_pos [of k'] by (simp add: a_eq kd pow2_add pow2_nat)
  also have "\<dots> = of_int (\<bar>m\<bar> * 2 ^ d)" by simp
  finally have "round_half_even (a / pow2 k') = \<bar>m\<bar> * 2 ^ d"
    by (simp only: round_half_even_of_int)
  then have v: "of_int (round_half_even (a / pow2 k')) * pow2 k' = a"
    by (simp add: a_eq kd pow2_add pow2_nat)
  have vq: "of_int (round_half_even (\<bar>q\<bar> / pow2 (max (ilog2 \<bar>q\<bar> - 52) (- 1074))))
      * pow2 (max (ilog2 \<bar>q\<bar> - 52) (- 1074)) = \<bar>q\<bar>"
    using v by (simp only: a_def k'_def e_def)
  have "fl q = Fin (if q < 0 then - \<bar>q\<bar> else \<bar>q\<bar>)"
    unfolding fl_def Let_def vq using False r by simp
  then show ?thesis by simp
qed

lemma fl_of_int: "\<bar>n\<bar> < 2 ^ 53 \<Longrightarrow> fl (of_int n) = Fin (of_int n)"
proof -
  assume a: "\<bar>n\<bar> < 2 ^ 53"
  have "(of_int \<bar>n\<bar> :: rat) < of_int (2 ^ 53)" using a by (simp only: of_int_less_iff)
  also have "(of_int (2 ^ 53) :: rat) < 2 ^ 1024" by simp
  finally have "\<bar>of_int n :: rat\<bar> < 2 ^ 1024" by simp
  then show ?thesis
    using fl_exact [of n 0 "of_int n"] a by (simp add: pow2_def)
qed

text \<open>The sign of a rounded non-zero value is the sign of the exact value.\<close>

lemma fl_cases:
  assumes "q \<noteq> 0"
  shows "fl q = signed_inf (q < 0) \<or> fl q = signed_zero (q < 0)
     \<or> (\<exists>v. 0 < v \<and> fl q = Fin (if q < 0 then - v else v))"
proof -
  define v where "v = of_int (round_half_even (\<bar>q\<bar> / pow2 (max (ilog2 \<bar>q\<bar> - 52) (- 1074))))
     * pow2 (max (ilog2 \<bar>q\<bar> - 52) (- 1074))"
  have "0 \<le> \<bar>q\<bar> / pow2 (max (ilog2 \<bar>q\<bar> - 52) (- 1074))"
    using pow2_pos [of "max (ilog2 \<bar>q\<bar> - 52) (- 1074)"] by simp
  then have "0 \<le> round_half_even (\<bar>q\<bar> / pow2 (max (ilog2 \<bar>q\<bar> - 52) (- 1074)))"
    using round_half_even_ge [of 0] by simp
  then have v0: "0 \<le> v"
    using pow2_pos [of "max (ilog2 \<bar>q\<bar> - 52) (- 1074)"] by (simp add: v_def)
  show ?thesis
  proof (cases "2 ^ 1024 \<le> v")
    case True
    then show ?thesis using assms by (simp add: fl_def Let_def v_def signed_inf_def)
  next
    case big: False
    show ?thesis
    proof (cases "v = 0")
      case True
      then show ?thesis using assms big by (simp add: fl_def Let_def v_def signed_zero_def)
    next
      case False
      then have "0 < v" using v0 by simp
      moreover have "fl q = Fin (if q < 0 then - v else v)"
        using assms big False unfolding v_def fl_def Let_def by simp
      ultimately show ?thesis by blast
    qed
  qed
qed

lemma pow2_strict_mono: "a < b \<Longrightarrow> pow2 a < pow2 b"
  by (simp add: pow2_powi power_int_strict_increasing)

lemma ilog2_unique:
  assumes lo: "pow2 e \<le> q" and hi: "q < pow2 (e + 1)"
  shows "ilog2 q = e"
proof -
  have qpos: "0 < q" using lo pow2_pos [of e] by simp
  note b = ilog2_bounds [OF qpos]
  have "\<not> ilog2 q < e"
  proof
    assume "ilog2 q < e"
    then have "pow2 (ilog2 q + 1) \<le> pow2 e" by (simp add: pow2_mono)
    then show False using b lo by simp
  qed
  moreover have "\<not> e < ilog2 q"
  proof
    assume "e < ilog2 q"
    then have "pow2 (e + 1) \<le> pow2 (ilog2 q)" by (simp add: pow2_mono)
    then show False using b hi by simp
  qed
  ultimately show ?thesis by simp
qed

lemma round_half_even_unique:
  assumes "\<bar>x - of_int n\<bar> < 1 / 2"
  shows "round_half_even x = n"
proof -
  have "\<bar>(of_int (round_half_even x) :: rat) - of_int n\<bar> < 1"
    using round_half_even_bounds [of x] assms by linarith
  then have "\<bar>(of_int (round_half_even x - n) :: rat)\<bar> < 1" by simp
  then have "\<bar>round_half_even x - n\<bar> < 1"
    by (metis of_int_1 of_int_abs of_int_less_iff)
  then show ?thesis by simp
qed

lemma round_half_even_tie:
  assumes "\<bar>x - of_int n\<bar> = 1 / 2" and "even n"
  shows "round_half_even x = n"
proof (cases "x \<le> of_int n")
  case True
  then have x: "x = of_int (n - 1) + 1 / 2" using assms(1) by simp
  have f: "\<lfloor>x\<rfloor> = n - 1" unfolding x by (rule floor_unique) simp_all
  have "x - of_int (n - 1) = 1 / 2" using x by simp
  then show ?thesis using assms(2) unfolding round_half_even_def Let_def f by simp
next
  case False
  then have x: "x = of_int n + 1 / 2" using assms(1) by simp
  have f: "\<lfloor>x\<rfloor> = n" unfolding x by (rule floor_unique) simp_all
  have "x - of_int n = 1 / 2" using x by simp
  then show ?thesis using assms(2) unfolding round_half_even_def Let_def f by simp
qed

text \<open>
  A normal value: the scaled magnitude lies in \<open>[2^52, 2^53)\<close> and the mantissa is the
  nearest integer, the even one at a tie.
\<close>

lemma fl_normal_eval:
  assumes k: "- 1074 \<le> k" "k \<le> 970"
    and lo: "2 ^ 52 * pow2 k \<le> \<bar>q\<bar>" and hi: "\<bar>q\<bar> < 2 ^ 53 * pow2 k"
    and close: "\<bar>\<bar>q\<bar> / pow2 k - of_int n\<bar> < 1 / 2
       \<or> (\<bar>\<bar>q\<bar> / pow2 k - of_int n\<bar> = 1 / 2 \<and> even n)"
  shows "fl q = Fin (if q < 0 then - (of_int n * pow2 k) else of_int n * pow2 k)"
proof -
  define a where "a = \<bar>q\<bar>"
  have r: "round_half_even (\<bar>q\<bar> / pow2 k) = n"
    using close round_half_even_unique round_half_even_tie by blast
  have p52: "pow2 52 = 2 ^ 52" and p53: "pow2 53 = 2 ^ 53" by (simp_all add: pow2_def)
  have kpos: "0 < pow2 k" by (rule pow2_pos)
  have "(0::rat) < 2 ^ 52 * pow2 k" using kpos by simp
  then have apos: "0 < a" using lo unfolding a_def by linarith
  then have q0: "q \<noteq> 0" by (auto simp add: a_def)
  have lo': "pow2 (k + 52) \<le> a" using lo by (simp add: pow2_add p52 a_def mult.commute)
  have hi': "a < pow2 (k + 52 + 1)"
    using hi pow2_add [of k 53] by (simp add: p53 mult.commute add.commute a_def)
  have e: "ilog2 a = k + 52" using ilog2_unique [OF lo' hi'] .
  have kk: "max (ilog2 a - 52) (- 1074) = k" using e k by simp
  have x1: "2 ^ 52 \<le> a / pow2 k" using lo kpos by (simp add: a_def pos_le_divide_eq)
  have x2: "a / pow2 k \<le> 2 ^ 53" using hi kpos by (simp add: a_def pos_divide_le_eq)
  have "round_half_even (a / pow2 k) \<le> 2 ^ 53"
    using round_half_even_le [of "a / pow2 k" "2 ^ 53"] x2 by simp
  then have "(of_int n :: rat) \<le> of_int (2 ^ 53)"
    using r unfolding a_def by (simp only: of_int_le_iff)
  then have "of_int n * pow2 k \<le> 2 ^ 53 * pow2 k" using kpos by simp
  also have "\<dots> = pow2 (53 + k)" by (simp add: pow2_add p53)
  also have "\<dots> < pow2 1024" using k by (simp add: pow2_strict_mono)
  also have "pow2 1024 = 2 ^ 1024" by (simp add: pow2_def)
  finally have nov: "\<not> 2 ^ 1024 \<le> of_int n * pow2 k" by simp
  have "2 ^ 52 \<le> round_half_even (a / pow2 k)"
    using round_half_even_ge [of "2 ^ 52" "a / pow2 k"] x1 by simp
  then have "0 < n" using r unfolding a_def by simp
  then have "(0 :: rat) < of_int n" by (simp only: of_int_0_less_iff)
  then have nz: "of_int n * pow2 k \<noteq> 0" using kpos by simp
  have r': "round_half_even (a / pow2 k) = n" using r by (simp add: a_def)
  show ?thesis
    unfolding fl_def Let_def a_def [symmetric] kk r' using q0 nov nz by simp
qed

lemma js_mul_Fin: "x \<noteq> 0 \<Longrightarrow> y \<noteq> 0 \<Longrightarrow> js_mul (Fin x) (Fin y) = fl (x * y)"
  by (simp add: js_mul_def)

lemma js_div_Fin: "x \<noteq> 0 \<Longrightarrow> y \<noteq> 0 \<Longrightarrow> js_div (Fin x) (Fin y) = fl (x / y)"
  by (simp add: js_div_def)

lemma js_add_Fin: "x \<noteq> 0 \<or> y \<noteq> 0 \<Longrightarrow> js_add (Fin x) (Fin y) = fl (x + y)"
  by (auto simp add: js_add_def)

text \<open>Floors of rational literals.\<close>

lemma floor_rat_divide_numeral [simp]:
  "\<lfloor>(numeral a :: rat) / numeral b\<rfloor> = numeral a div numeral b"
  using floor_divide_of_int_eq [of "numeral a" "numeral b", where ?'a = rat] by simp

lemma floor_rat_minus_divide_numeral [simp]:
  "\<lfloor>- ((numeral a :: rat) / numeral b)\<rfloor> = - numeral a div numeral b"
  using floor_divide_of_int_eq [of "- numeral a" "numeral b", where ?'a = rat] by simp

lemma floor_rat_one_divide_numeral [simp]:
  "\<lfloor>(1 :: rat) / numeral b\<rfloor> = 1 div numeral b"
  using floor_divide_of_int_eq [of 1 "numeral b", where ?'a = rat] by simp

section \<open>The interest engine\<close>

lemma msPerDay_eq: "msPerDay = Fin 86400000"
proof -
  have a: "fl 1440 = Fin 1440" using fl_of_int [of 1440] by simp
  have b: "fl 86400 = Fin 86400" using fl_of_int [of 86400] by simp
  have c: "fl 86400000 = Fin 86400000" using fl_of_int [of 86400000] by simp
  show ?thesis by (simp add: msPerDay_def js_mul_Fin a b c)
qed

lemma fl_sign: "q \<noteq> 0 \<Longrightarrow> \<not> is_nan (fl q) \<and> sign_bit (fl q) = (q < 0)"
  using fl_cases [of q] by (cases "q < 0") (auto simp add: signed_inf_def signed_zero_def)







lemma ilog2_mono:
  assumes "0 < q" and "q \<le> b"
  shows "ilog2 q \<le> ilog2 b"
proof (rule ccontr)
  assume "\<not> ilog2 q \<le> ilog2 b"
  then have "ilog2 b + 1 \<le> ilog2 q" by simp
  then have "pow2 (ilog2 b + 1) \<le> pow2 (ilog2 q)" by (rule pow2_mono)
  moreover have "0 < b" using assms by simp
  ultimately show False
    using ilog2_bounds [OF assms(1)] ilog2_bounds [OF \<open>0 < b\<close>] assms(2) by linarith
qed

text \<open>Rounding never crosses a binary64 value: an upper bound that is a Number stays one.\<close>

lemma fl_upper:
  assumes q: "0 < q" and le: "q \<le> b" and b: "fl b = Fin b"
  shows "\<exists>v. fl q = Fin v \<and> 0 \<le> v \<and> v \<le> b"
proof -
  have bpos: "0 < b" using q le by simp
  define kb where "kb = max (ilog2 b - 52) (- 1074)"
  define nb where "nb = round_half_even (b / pow2 kb)"
  have ab: "\<bar>b\<bar> = b" using bpos by simp
  have flb: "fl b = (if 2 ^ 1024 \<le> of_int nb * pow2 kb then PosInf
      else if of_int nb * pow2 kb = 0 then Fin 0 else Fin (of_int nb * pow2 kb))"
    using bpos unfolding fl_def Let_def ab kb_def nb_def by simp
  have bv: "b = of_int nb * pow2 kb" and bsmall: "\<not> 2 ^ 1024 \<le> b"
    using b bpos unfolding flb by (auto split: if_splits)
  define k where "k = max (ilog2 q - 52) (- 1074)"
  define n where "n = round_half_even (q / pow2 k)"
  have kk: "k \<le> kb" using ilog2_mono [OF q le] by (simp add: k_def kb_def)
  define d where "d = nat (kb - k)"
  have kbd: "kb = k + int d" using kk by (simp add: d_def)
  have "b / pow2 k = of_int nb * 2 ^ d"
    using pow2_pos [of k] by (simp add: bv kbd pow2_add pow2_nat)
  then have bi: "b / pow2 k = of_int (nb * 2 ^ d)" by simp
  have "q / pow2 k \<le> b / pow2 k" using le pow2_pos [of k] by (simp add: divide_right_mono)
  then have "n \<le> nb * 2 ^ d"
    unfolding n_def bi by (rule round_half_even_le)
  then have "(of_int n :: rat) \<le> of_int (nb * 2 ^ d)" by (simp only: of_int_le_iff)
  then have "of_int n * pow2 k \<le> of_int (nb * 2 ^ d) * pow2 k"
    using pow2_pos [of k] by (simp add: mult_right_mono)
  also have "\<dots> = b" using bi pow2_pos [of k] by (simp add: field_simps)
  finally have vle: "of_int n * pow2 k \<le> b" .
  have "0 \<le> q / pow2 k" using q pow2_pos [of k] by simp
  then have "0 \<le> n" unfolding n_def using round_half_even_ge [of 0] by simp
  then have v0: "(0::rat) \<le> of_int n * pow2 k" using pow2_pos [of k] by simp
  have aq: "\<bar>q\<bar> = q" using q by simp
  have "fl q = (if 2 ^ 1024 \<le> of_int n * pow2 k then PosInf
      else if of_int n * pow2 k = 0 then Fin 0 else Fin (of_int n * pow2 k))"
    using q unfolding fl_def Let_def aq k_def n_def by simp
  then have "fl q = Fin (of_int n * pow2 k)" using vle bsmall by auto
  then show ?thesis using v0 vle by blast
qed

lemma subday_floor:
  assumes "0 < d" and "d < 86400000"
  shows "Math_floor (fl (of_int d / 86400000)) = Fin 0"
proof -
  have b: "fl (134217727 / 134217728) = Fin (134217727 / 134217728)"
    using fl_exact [of 134217727 "- 27" "134217727 / 134217728"] by (simp add: pow2_def)
  have "d \<le> 86399999" using assms(2) by simp
  then have "(of_int d :: rat) \<le> of_int 86399999" by (simp only: of_int_le_iff)
  then have le: "(of_int d :: rat) / 86400000 \<le> 134217727 / 134217728" by simp
  have "(0::rat) < of_int d" using assms(1) by simp
  then have pos: "(0::rat) < of_int d / 86400000" by simp
  obtain v where v: "fl (of_int d / 86400000) = Fin v" "0 \<le> v" "v \<le> 134217727 / 134217728"
    using fl_upper [OF pos le b] by blast
  have "\<lfloor>v\<rfloor> = 0" using v(2,3) by (intro floor_unique) simp_all
  then show ?thesis using v(1) by simp
qed




lemma Math_round_val: "val (Math_round (Fin q)) = of_int \<lfloor>q + 1 / 2\<rfloor>"
proof (cases "q < 0 \<and> - (1 / 2) \<le> q")
  case True
  then have "\<lfloor>q + 1 / 2\<rfloor> = 0" by (intro floor_unique) simp_all
  then show ?thesis using True by simp
next
  case False
  then show ?thesis by auto
qed







text \<open>
  C2. Whenever the principal is \<open>\<le> 0\<close>, both functions return the error
  \<open>Principal must be positive\<close>; whenever the start date is \<open>\<ge>\<close> the end date, both
  return an error (that one, or \<open>End date must be after start date\<close>), whatever the other
  arguments. The error is a returned value (\<open>Inl\<close>) that carries the reason only.
\<close>

theorem validation_errors:
  "(js_le p (Fin 0) \<longrightarrow>
      calculateDefaultInterest p s e r = Inl ''Principal must be positive'' \<and>
      calculateCompoundInterest pow p s e r = Inl ''Principal must be positive'') \<and>
   (js_ge (valueOf s) (valueOf e) \<longrightarrow>
      calculateDefaultInterest p s e r \<in> {Inl ''Principal must be positive'', Inl ''End date must be after start date''} \<and>
      calculateCompoundInterest pow p s e r \<in> {Inl ''Principal must be positive'', Inl ''End date must be after start date''})"
  by (simp add: calculateDefaultInterest_def calculateCompoundInterest_def Let_def)

theorem validation_errors_witness:
  "js_le (Fin (- 1000)) (Fin 0) \<and> js_ge (valueOf (TimeValue 5)) (valueOf (TimeValue 5)) \<and>
   calculateDefaultInterest (Fin (- 1000)) (TimeValue 0) (TimeValue 5) None = Inl ''Principal must be positive'' \<and>
   calculateCompoundInterest (\<lambda>x y. x) (Fin (- 1000)) (TimeValue 0) (TimeValue 5) None = Inl ''Principal must be positive'' \<and>
   calculateDefaultInterest (Fin 10000) (TimeValue 5) (TimeValue 5) None = Inl ''End date must be after start date'' \<and>
   calculateCompoundInterest (\<lambda>x y. x) (Fin 10000) (TimeValue 5) (TimeValue 5) None = Inl ''End date must be after start date''"
proof -
  have h1: "js_le (Fin (- 1000)) (Fin 0)" by (simp add: js_le_def js_lt_def)
  have h2: "js_ge (valueOf (TimeValue 5)) (valueOf (TimeValue 5))" by (simp add: js_ge_def js_lt_def)
  have n1: "\<not> js_le (Fin 10000) (Fin 0)" by (simp add: js_le_def js_lt_def)
  have a: "calculateDefaultInterest (Fin (- 1000)) (TimeValue 0) (TimeValue 5) None = Inl ''Principal must be positive''"
     "calculateCompoundInterest (\<lambda>x y. x) (Fin (- 1000)) (TimeValue 0) (TimeValue 5) None = Inl ''Principal must be positive''"
    using validation_errors [of "Fin (- 1000)" "TimeValue 0" "TimeValue 5" None "\<lambda>x y. x"] h1 by simp_all
  have b: "calculateDefaultInterest (Fin 10000) (TimeValue 5) (TimeValue 5) None \<in> {Inl ''Principal must be positive'', Inl ''End date must be after start date''}"
    "calculateCompoundInterest (\<lambda>x y. x) (Fin 10000) (TimeValue 5) (TimeValue 5) None \<in> {Inl ''Principal must be positive'', Inl ''End date must be after start date''}"
    using validation_errors [of "Fin 10000" "TimeValue 5" "TimeValue 5" None "\<lambda>x y. x"] h2 by blast+
  have c: "calculateDefaultInterest (Fin 10000) (TimeValue 5) (TimeValue 5) None \<noteq> Inl ''Principal must be positive''"
    "calculateCompoundInterest (\<lambda>x y. x) (Fin 10000) (TimeValue 5) (TimeValue 5) None \<noteq> Inl ''Principal must be positive''"
    using n1 by (simp_all add: calculateDefaultInterest_def calculateCompoundInterest_def Let_def)
  show ?thesis using h1 h2 a b c by auto
qed

text \<open>
  C3. For a principal greater than 0 and a start date strictly before the end date,
  \<open>calculateCompoundInterest\<close> returns a result whose \<open>days\<close> is the floor of the elapsed
  milliseconds divided by 86,400,000, whose years are \<open>days / 365\<close>, whose total is
  \<open>principal * (1 + rate/100)^years\<close> and whose interest is \<open>total - principal\<close>; the
  returned interest, total and years are each rounded to 2 decimal places and the method
  label is \<open>compound (annual)\<close>. The power function is \<open>Math.pow\<close>, a parameter here.
\<close>

theorem compound_interest_result:
  assumes "js_gt p (Fin 0)" and "js_lt (valueOf s) (valueOf e)"
  shows "calculateCompoundInterest pow p s e r =
    Inr \<lparr> principal = p, startDate = s, endDate = e, days = elapsed_days s e,
          interestRate = with_default (Fin 5) r,
          interest = round2 (js_sub (compound_total pow p (with_default (Fin 5) r) (elapsed_days s e)) p),
          total = round2 (compound_total pow p (with_default (Fin 5) r) (elapsed_days s e)),
          method' = ''compound (annual)'',
          years = round2 (js_div (elapsed_days s e) (Fin 365)) \<rparr>"
proof -
  have "\<not> js_le p (Fin 0)" using assms(1) by (simp add: js_le_def js_gt_def)
  moreover have "\<not> js_ge (valueOf s) (valueOf e)" using assms(2) by (simp add: js_ge_def)
  ultimately show ?thesis
    by (simp add: calculateCompoundInterest_def Let_def round2_def elapsed_days_def
        compound_total_def msPerDay_eq)
qed

theorem compound_interest_result_witness:
  "js_gt (Fin 10000) (Fin 0) \<and> js_lt (valueOf (TimeValue 0)) (valueOf (TimeValue 2592000000)) \<and>
   calculateCompoundInterest (\<lambda>x y. x) (Fin 10000) (TimeValue 0) (TimeValue 2592000000) None =
    Inr \<lparr> principal = Fin 10000, startDate = TimeValue 0, endDate = TimeValue 2592000000,
          days = elapsed_days (TimeValue 0) (TimeValue 2592000000),
          interestRate = Fin 5,
          interest = round2 (js_sub (compound_total (\<lambda>x y. x) (Fin 10000) (Fin 5) (elapsed_days (TimeValue 0) (TimeValue 2592000000))) (Fin 10000)),
          total = round2 (compound_total (\<lambda>x y. x) (Fin 10000) (Fin 5) (elapsed_days (TimeValue 0) (TimeValue 2592000000))),
          method' = ''compound (annual)'',
          years = round2 (js_div (elapsed_days (TimeValue 0) (TimeValue 2592000000)) (Fin 365)) \<rparr>"
proof -
  have h1: "js_gt (Fin 10000) (Fin 0)" by (simp add: js_gt_def js_lt_def)
  have h2: "js_lt (valueOf (TimeValue 0)) (valueOf (TimeValue 2592000000))"
    by (simp add: js_lt_def)
  show ?thesis
    using compound_interest_result [OF h1 h2, of "\<lambda>x y. x" None] h1 h2 by (simp add: with_default_def)
qed

text \<open>
  C4 (as amended). In \<open>calculateDefaultInterest\<close> the interest and the total are each
  rounded on their own as \<open>Math.round(x * 100) / 100\<close> in Number arithmetic, and
  \<open>Math.round\<close> takes a finite value \<open>q\<close> to \<open>\<lfloor>q + 1/2\<rfloor>\<close>: an exact half goes towards
  \<open>+\<infinity>\<close>, which for a negative value is towards zero, not away from it.
\<close>

theorem rounding_half_up:
  "(js_gt p (Fin 0) \<and> js_lt (valueOf s) (valueOf e) \<longrightarrow>
     (\<exists>res. calculateDefaultInterest p s e r = Inr res \<and>
        interest res = js_div (Math_round (js_mul
            (interest_formula p (with_default (Fin 5) r) (elapsed_days s e)) (Fin 100))) (Fin 100) \<and>
        total res = js_div (Math_round (js_mul (js_add p (interest res)) (Fin 100))) (Fin 100)))
   \<and> val (Math_round (Fin q)) = of_int \<lfloor>q + 1 / 2\<rfloor>
   \<and> val (Math_round (Fin (of_int n + 1 / 2))) = of_int n + 1"
proof (intro conjI impI)
  assume a: "js_gt p (Fin 0) \<and> js_lt (valueOf s) (valueOf e)"
  have g1: "\<not> js_le p (Fin 0)" using a by (simp add: js_le_def js_gt_def)
  have g2: "\<not> js_ge (valueOf s) (valueOf e)" using a by (simp add: js_ge_def)
  show "\<exists>res. calculateDefaultInterest p s e r = Inr res \<and>
        interest res = js_div (Math_round (js_mul
            (interest_formula p (with_default (Fin 5) r) (elapsed_days s e)) (Fin 100))) (Fin 100) \<and>
        total res = js_div (Math_round (js_mul (js_add p (interest res)) (Fin 100))) (Fin 100)"
    using g1 g2
    by (simp add: calculateDefaultInterest_def Let_def interest_formula_def elapsed_days_def msPerDay_eq)
next
  show "val (Math_round (Fin q)) = of_int \<lfloor>q + 1 / 2\<rfloor>"
    by (rule Math_round_val)
next
  have "\<lfloor>(of_int n :: rat) + 1 / 2 + 1 / 2\<rfloor> = n + 1" by (intro floor_unique) simp_all
  then show "val (Math_round (Fin (of_int n + 1 / 2))) = of_int n + 1"
    unfolding Math_round_val by simp
qed

theorem rounding_half_up_witness:
  "js_gt (Fin 100) (Fin 0) \<and> js_lt (valueOf (TimeValue 0)) (valueOf (TimeValue 777600000)) \<and>
   (\<exists>res. calculateDefaultInterest (Fin 100) (TimeValue 0) (TimeValue 777600000) (Some (Fin (- 5))) = Inr res \<and>
        interest res = js_div (Math_round (js_mul
            (interest_formula (Fin 100) (with_default (Fin 5) (Some (Fin (- 5)))) (elapsed_days (TimeValue 0) (TimeValue 777600000))) (Fin 100))) (Fin 100) \<and>
        total res = js_div (Math_round (js_mul (js_add (Fin 100) (interest res)) (Fin 100))) (Fin 100))
   \<and> val (Math_round (Fin (- (25 / 2)))) = - 12"
proof -
  have h1: "js_gt (Fin 100) (Fin 0)" by (simp add: js_gt_def js_lt_def)
  have h2: "js_lt (valueOf (TimeValue 0)) (valueOf (TimeValue 777600000))"
    by (simp add: js_lt_def)
  have "val (Math_round (Fin (- (25 / 2)))) = - 12"
    using rounding_half_up [of "Fin 100" "TimeValue 0" "TimeValue 777600000" "Some (Fin (- 5))" "- (25 / 2)" 0]
    by simp
  then show ?thesis
    using rounding_half_up [of "Fin 100" "TimeValue 0" "TimeValue 777600000" "Some (Fin (- 5))" 0 0] h1 h2
    by blast
qed

text \<open>
  The claim as stated fails: principal 100, rate -5 and 9 days give the formula value
  \<open>-0.125\<close>; the returned interest is the Number \<open>-0.12\<close>, where rounding the half away
  from zero gives \<open>-0.13\<close>.
\<close>

theorem half_away_counterexample:
  "calculateDefaultInterest (Fin 100) (TimeValue 0) (TimeValue 777600000) (Some (Fin (- 5))) =
     Inr \<lparr> principal = Fin 100, startDate = TimeValue 0, endDate = TimeValue 777600000,
          days = Fin 9, interestRate = Fin (- 5),
          interest = Fin (- (1080863910568919 / 9007199254740992)),
          total = Fin (878553771058135 / 8796093022208),
          method' = ''360-day year'' \<rparr>
   \<and> interest_formula (Fin 100) (Fin (- 5)) (Fin 9) = Fin (- (1 / 8))
   \<and> round2_half_away (Fin (- (1 / 8))) = Fin (- (1170935903116329 / 9007199254740992))"
proof -
  have d0: "js_sub (Fin 777600000) (Fin 0) = Fin 777600000"
    using fl_of_int [of 777600000] by (simp add: js_sub_def js_add_def)
  have s1: "js_div (Fin 777600000) (Fin 86400000) = Fin 9"
    using fl_normal_eval [of "- 49" "777600000 / 86400000" 5066549580791808]
    by (simp add: js_div_def pow2_def)
  have s2: "js_div (Fin (- 5)) (Fin 100) = Fin (- (3602879701896397 / 72057594037927936))"
    using fl_normal_eval [of "- 57" "(- 5) / 100" 7205759403792794]
    by (simp add: js_div_def pow2_def)
  have s3: "js_div (Fin (- (3602879701896397 / 72057594037927936))) (Fin 360) = Fin (- (5124095576030431 / 36893488147419103232))"
    using fl_normal_eval [of "- 65" "(- (3602879701896397 / 72057594037927936)) / 360" 5124095576030431]
    by (simp add: js_div_def pow2_def)
  have s4: "js_mul (Fin 100) (Fin (- (5124095576030431 / 36893488147419103232))) = Fin (- (2001599834386887 / 144115188075855872))"
    using fl_normal_eval [of "- 59" "100 * (- (5124095576030431 / 36893488147419103232))" 8006399337547548]
    by (simp add: js_mul_def pow2_def)
  have s5: "js_mul (Fin (- (2001599834386887 / 144115188075855872))) (Fin 9) = Fin (- (1 / 8))"
    using fl_normal_eval [of "- 56" "(- (2001599834386887 / 144115188075855872)) * 9" 9007199254740992]
    by (simp add: js_mul_def pow2_def)
  have s6: "js_mul (Fin (- (1 / 8))) (Fin 100) = Fin (- (25 / 2))"
    using fl_normal_eval [of "- 49" "(- (1 / 8)) * 100" 7036874417766400]
    by (simp add: js_mul_def pow2_def)
  have s7: "js_div (Fin (- 12)) (Fin 100) = Fin (- (1080863910568919 / 9007199254740992))"
    using fl_normal_eval [of "- 56" "(- 12) / 100" 8646911284551352]
    by (simp add: js_div_def pow2_def)
  have s8: "js_add (Fin 100) (Fin (- (1080863910568919 / 9007199254740992))) = Fin (878553771058135 / 8796093022208)"
    using fl_normal_eval [of "- 46" "100 + (- (1080863910568919 / 9007199254740992))" 7028430168465080]
    by (simp add: js_add_def pow2_def)
  have s9: "js_mul (Fin (878553771058135 / 8796093022208)) (Fin 100) = Fin 9988"
    using fl_normal_eval [of "- 39" "(878553771058135 / 8796093022208) * 100" 5490961069113344]
    by (simp add: js_mul_def pow2_def)
  have s10: "js_div (Fin 9988) (Fin 100) = Fin (878553771058135 / 8796093022208)"
    using fl_normal_eval [of "- 46" "9988 / 100" 7028430168465080]
    by (simp add: js_div_def pow2_def)
  have h: "fl (- (13 / 100)) = Fin (- (1170935903116329 / 9007199254740992))"
    using fl_normal_eval [of "- 55" "- (13 / 100)" 4683743612465316] by (simp add: pow2_def)
  have a: "round2_half_away (Fin (- (1 / 8))) = Fin (- (1170935903116329 / 9007199254740992))"
    using h by (simp add: round2_half_away_def)
  show ?thesis
    by (simp add: calculateDefaultInterest_def Let_def msPerDay_eq with_default_def js_le_def
        js_ge_def js_lt_def interest_formula_def d0 s1 s2 s3 s4 s5 s6 s7 s8 s9 s10 a)
qed

text \<open>
  C9 (as amended). For a finite principal greater than 0 whose product with the daily
  rate is finite, and two valid dates less than 24 hours apart, the start strictly before
  the end, \<open>calculateDefaultInterest\<close> returns a result with \<open>days = 0\<close>, an interest equal
  to 0 (a zero of either sign) and \<open>total = round(principal, 2)\<close>.
\<close>

theorem subday_zero_interest:
  assumes p: "js_gt p (Fin 0)" "is_double p"
    and fin: "is_finite (js_mul p (js_div (js_div (with_default (Fin 5) r) (Fin 100)) (Fin 360)))"
    and dates: "\<bar>ts\<bar> \<le> 8640000000000000" "\<bar>te\<bar> \<le> 8640000000000000" "ts < te" "te - ts < 86400000"
  shows "\<exists>res. calculateDefaultInterest p (TimeValue ts) (TimeValue te) r = Inr res \<and>
     days res = Fin 0 \<and> js_eq (interest res) (Fin 0) \<and> total res = round2 p"
proof -
  define m where "m = js_mul p (js_div (js_div (with_default (Fin 5) r) (Fin 100)) (Fin 360))"
  obtain q where pq: "p = Fin q" "0 < q"
    using p(1) fin by (cases p) (auto simp add: js_gt_def js_lt_def js_mul_def signed_inf_def split: if_splits)
  have flq: "fl q = Fin q" using p(2) pq by (simp add: is_double_def)
  have g1: "\<not> js_le p (Fin 0)" using p(1) by (simp add: js_le_def js_gt_def)
  have g2: "\<not> js_ge (valueOf (TimeValue ts)) (valueOf (TimeValue te))"
    using dates by (simp add: js_ge_def js_lt_def)
  have sub: "js_sub (valueOf (TimeValue te)) (valueOf (TimeValue ts)) = Fin (of_int (te - ts))"
  proof -
    have "\<bar>te - ts\<bar> < 2 ^ 53" using dates by simp
    then have "fl (of_int (te - ts)) = Fin (of_int (te - ts))" by (rule fl_of_int)
    then show ?thesis using dates by (auto simp add: js_sub_def js_add_def)
  qed
  have dv: "js_div (Fin (of_int (te - ts))) (Fin 86400000) = fl (of_int (te - ts) / 86400000)"
    using dates by (simp add: js_div_def)
  have d0: "Math_floor (js_div (js_sub (valueOf (TimeValue te)) (valueOf (TimeValue ts))) msPerDay) = Fin 0"
    unfolding sub msPerDay_eq dv using dates by (intro subday_floor) simp_all
  have mz: "js_mul m (Fin 0) = signed_zero (sign_bit m)"
    using fin unfolding m_def [symmetric] by (cases m) (simp_all add: js_mul_def)
  have iz: "js_div (Math_round (js_mul (js_mul m (Fin 0)) (Fin 100))) (Fin 100) = signed_zero (sign_bit m)"
    unfolding mz by (simp add: signed_zero_def js_mul_def js_div_def)
  have tz: "js_add p (signed_zero (sign_bit m)) = p"
    using pq flq by (simp add: signed_zero_def js_add_def)
  have ez: "js_eq (signed_zero (sign_bit m)) (Fin 0)"
    by (simp add: signed_zero_def js_eq_def)
  show ?thesis
    using g1 g2 d0 iz tz ez
    by (simp add: calculateDefaultInterest_def Let_def m_def [symmetric] round2_def)
qed

theorem subday_zero_interest_witness:
  "js_gt (Fin 10000) (Fin 0) \<and> is_double (Fin 10000) \<and>
   is_finite (js_mul (Fin 10000) (js_div (js_div (with_default (Fin 5) None) (Fin 100)) (Fin 360))) \<and>
   (\<exists>res. calculateDefaultInterest (Fin 10000) (TimeValue 0) (TimeValue 3600000) None = Inr res \<and>
     days res = Fin 0 \<and> js_eq (interest res) (Fin 0) \<and> total res = round2 (Fin 10000))"
proof -
  have h1: "js_gt (Fin 10000) (Fin 0)" by (simp add: js_gt_def js_lt_def)
  have h2: "is_double (Fin 10000)" using fl_of_int [of 10000] by (simp add: is_double_def)
  have nz: "(5 / 100 / 360 :: rat) \<noteq> 0" by simp
  have "js_div (Fin 5) (Fin 100) = Fin (3602879701896397 / 72057594037927936)"
    using fl_normal_eval [of "- 57" "5 / 100" 7205759403792794]
    by (simp add: js_div_def pow2_def)
  moreover have "js_div (Fin (3602879701896397 / 72057594037927936)) (Fin 360) = Fin (5124095576030431 / 36893488147419103232)"
    using fl_normal_eval [of "- 65" "(3602879701896397 / 72057594037927936) / 360" 5124095576030431]
    by (simp add: js_div_def pow2_def)
  moreover have "js_mul (Fin 10000) (Fin (5124095576030431 / 36893488147419103232)) = Fin (3127499741229511 / 2251799813685248)"
    using fl_normal_eval [of "- 52" "10000 * (5124095576030431 / 36893488147419103232)" 6254999482459022]
    by (simp add: js_mul_def pow2_def)
  ultimately have h3: "is_finite (js_mul (Fin 10000) (js_div (js_div (with_default (Fin 5) None) (Fin 100)) (Fin 360)))"
    by (simp add: with_default_def)
  show ?thesis
    using subday_zero_interest [OF h1 h2 h3, of 0 3600000] h1 h2 h3 by simp
qed

text \<open>
  The claim as stated fails: for the principal \<open>0.125\<close> and dates one millisecond apart the
  total is the Number \<open>0.13\<close>, not the principal.
\<close>

theorem subday_total_counterexample:
  "calculateDefaultInterest (Fin (1 / 8)) (TimeValue 0) (TimeValue 1) None =
     Inr \<lparr> principal = Fin (1 / 8), startDate = TimeValue 0, endDate = TimeValue 1,
          days = Fin 0, interestRate = Fin 5,
          interest = Fin 0,
          total = Fin (1170935903116329 / 9007199254740992),
          method' = ''360-day year'' \<rparr>
   \<and> \<not> js_eq (Fin (1170935903116329 / 9007199254740992)) (Fin (1 / 8))"
proof -
  have d0: "js_sub (Fin 1) (Fin 0) = Fin 1"
    using fl_of_int [of 1] by (simp add: js_sub_def js_add_def)
  have s1: "js_div (Fin 1) (Fin 86400000) = Fin (6996098493140215 / 604462909807314587353088)"
    using fl_normal_eval [of "- 79" "1 / 86400000" 6996098493140215]
    by (simp add: js_div_def pow2_def)
  have s2: "js_div (Fin 5) (Fin 100) = Fin (3602879701896397 / 72057594037927936)"
    using fl_normal_eval [of "- 57" "5 / 100" 7205759403792794]
    by (simp add: js_div_def pow2_def)
  have s3: "js_div (Fin (3602879701896397 / 72057594037927936)) (Fin 360) = Fin (5124095576030431 / 36893488147419103232)"
    using fl_normal_eval [of "- 65" "(3602879701896397 / 72057594037927936) / 360" 5124095576030431]
    by (simp add: js_div_def pow2_def)
  have s4: "js_mul (Fin (1 / 8)) (Fin (5124095576030431 / 36893488147419103232)) = Fin (5124095576030431 / 295147905179352825856)"
    using fl_normal_eval [of "- 68" "(1 / 8) * (5124095576030431 / 36893488147419103232)" 5124095576030431]
    by (simp add: js_mul_def pow2_def)
  have s5: "js_mul (Fin (1 / 8)) (Fin 100) = Fin (25 / 2)"
    using fl_normal_eval [of "- 49" "(1 / 8) * 100" 7036874417766400]
    by (simp add: js_mul_def pow2_def)
  have s6: "js_div (Fin 13) (Fin 100) = Fin (1170935903116329 / 9007199254740992)"
    using fl_normal_eval [of "- 55" "13 / 100" 4683743612465316]
    by (simp add: js_div_def pow2_def)
  have z1: "js_mul (Fin (5124095576030431 / 295147905179352825856)) (Fin 0) = Fin 0" by (simp add: js_mul_def signed_zero_def)
  have z2: "js_mul (Fin 0) (Fin 100) = Fin 0" by (simp add: js_mul_def signed_zero_def)
  have z3: "js_div (Fin 0) (Fin 100) = Fin 0" by (simp add: js_div_def signed_zero_def)
  have z4: "js_add (Fin (1 / 8)) (Fin 0) = Fin (1 / 8)"
    using fl_exact [of 1 "- 3" "1 / 8"] by (simp add: js_add_def pow2_def)
  show ?thesis
    by (simp add: calculateDefaultInterest_def Let_def msPerDay_eq with_default_def js_le_def
        js_ge_def js_lt_def js_eq_def d0 s1 s2 s3 s4 s5 s6 z1 z2 z3 z4)
qed




section \<open>Parsing regional numbers\<close>

lemma fl_not_nan: "fl q \<noteq> NaN"
proof (cases "q = 0")
  case True
  then show ?thesis by (simp add: fl_def)
next
  case False
  then show ?thesis using fl_sign [of q] by auto
qed

lemma unsigned_literal_NoLiteral:
  "unsigned_literal u = NoLiteral \<longleftrightarrow>
     \<not> (take 8 u = str ''Infinity'' \<or>
        (case u of
            [] \<Rightarrow> False
          | c # r \<Rightarrow> is_digit c \<or> (c = 46 \<and> (case r of [] \<Rightarrow> False | d # r' \<Rightarrow> is_digit d))))"
proof (cases u)
  case Nil
  then show ?thesis by (simp add: unsigned_literal_def str_def)
next
  case (Cons c r)
  show ?thesis
  proof (cases "is_digit c")
    case True
    then show ?thesis using Cons
      by (auto simp add: unsigned_literal_def Let_def split: list.splits)
  next
    case False
    then have c: "takeWhile is_digit u = []" "dropWhile is_digit u = u" using Cons by simp_all
    show ?thesis
    proof (cases r)
      case Nil
      then show ?thesis using Cons False c
        by (auto simp add: unsigned_literal_def Let_def str_def)
    next
      case (Cons d r')
      then show ?thesis using \<open>u = c # r\<close> False c
        by (auto simp add: unsigned_literal_def Let_def)
    qed
  qed
qed

lemma replace_first_char_no_ws:
  "\<not> is_js_whitespace b \<Longrightarrow> list_all (\<lambda>c. \<not> is_js_whitespace c) s
     \<Longrightarrow> list_all (\<lambda>c. \<not> is_js_whitespace c) (replace_first_char a b s)"
  by (induction s) auto

lemma cleaned_no_ws: "dropWhile is_js_whitespace (cleaned s) = cleaned s"
proof -
  have "list_all (\<lambda>c. \<not> is_js_whitespace c) (filter (\<lambda>c. \<not> is_separator c) s)"
    by (induction s) (auto simp add: is_separator_def)
  moreover have "\<not> is_js_whitespace 46" by (simp add: is_js_whitespace_def)
  ultimately have "list_all (\<lambda>c. \<not> is_js_whitespace c) (cleaned s)"
    unfolding cleaned_def by (intro replace_first_char_no_ws)
  then show ?thesis by (cases "cleaned s") auto
qed

text \<open>
  C5 (as amended). \<open>parseSwissNumber\<close> returns every non-string input unchanged; for a
  string it removes the apostrophe-like separators and white space, turns the first comma
  into a dot and applies \<open>parseFloat\<close>, so that \<open>10'000.50\<close> gives \<open>10000.5\<close> and
  \<open>1'234,56\<close> gives the Number \<open>1234.56\<close>. The result is NaN exactly when the cleaned
  string does not start with a numeric literal; characters after a numeric prefix are
  ignored. Being a total function, it never throws.
\<close>

theorem parseSwissNumber_behaviour:
  "parseSwissNumber JUndefined = JUndefined \<and> parseSwissNumber JNull = JNull \<and>
   parseSwissNumber (JBoolean b) = JBoolean b \<and> parseSwissNumber (JNumber x) = JNumber x \<and>
   parseSwissNumber (JObject a) = JObject a \<and>
   parseSwissNumber (JString s) = JNumber (parseFloat (cleaned s)) \<and>
   parseSwissNumber (JString (str ''10'000.50'')) = JNumber (Fin (20001 / 2)) \<and>
   parseSwissNumber (JString (str ''1'234,56'')) = JNumber (fl (123456 / 100)) \<and>
   (parseSwissNumber (JString s) = JNumber NaN \<longleftrightarrow> \<not> numeric_start (cleaned s))"
proof -
  have e1: "parseSwissNumber (JString (str ''10'000.50'')) = JNumber (Fin (20001 / 2))"
    using fl_exact [of 20001 "- 1" "20001 / 2"]
    by (simp add: parseSwissNumber_def parseFloat_def unsigned_literal_def str_def is_separator_def
        is_js_whitespace_def is_digit_def digits_value_def pow10_def pow2_def exponent_part_def Let_def)
  have e2: "parseSwissNumber (JString (str ''1'234,56'')) = JNumber (fl (123456 / 100))"
    by (simp add: parseSwissNumber_def parseFloat_def unsigned_literal_def str_def is_separator_def
        is_js_whitespace_def is_digit_def digits_value_def pow10_def exponent_part_def Let_def)
  have n: "parseFloat t = NaN \<longleftrightarrow> \<not> numeric_start t" if "dropWhile is_js_whitespace t = t" for t
  proof -
    define u where "u = (case t of [] \<Rightarrow> [] | c # r \<Rightarrow> if c = 45 \<or> c = 43 then r else t)"
    have "parseFloat t = NaN \<longleftrightarrow> unsigned_literal u = NoLiteral"
      unfolding parseFloat_def Let_def that u_def [symmetric]
      by (cases "unsigned_literal u") (simp_all add: fl_not_nan signed_inf_def signed_zero_def)
    then show ?thesis
      unfolding unsigned_literal_NoLiteral numeric_start_def Let_def u_def [symmetric] by simp
  qed
  show ?thesis
    using e1 e2 n [OF cleaned_no_ws]
    by (simp add: parseSwissNumber_def cleaned_def)
qed

text \<open>
  The claim as stated fails: \<open>12abc\<close> is not a number of the regional convention, and the
  result is 12, not NaN.
\<close>

theorem malformed_counterexample:
  "\<not> regional_number (str ''12abc'') \<and> parseSwissNumber (JString (str ''12abc'')) = JNumber (Fin 12)"
  using fl_of_int [of 12]
  by (simp add: regional_number_def parseSwissNumber_def parseFloat_def unsigned_literal_def str_def
      is_separator_def is_js_whitespace_def is_digit_def digits_value_def pow10_def exponent_part_def Let_def)

end
